theory Spec2Isabelle
  imports Main "HOL-Library.AList"
begin

section \<open>The hangman server: Python values\<close>

text \<open>
  The model follows \<^verbatim>\<open>src/mcp_servers/hangman_mcp.py\<close>. A Python \<^verbatim>\<open>str\<close> is a list of
  Unicode code points, so that \<^verbatim>\<open>len\<close> counts what Python counts and every string a
  caller can send is a value of the model; \<open>ustr\<close> gives the \<^verbatim>\<open>str\<close> that an ASCII
  literal of the source denotes. The one-character strings obtained by iterating over
  a \<^verbatim>\<open>str\<close> (the elements of \<^verbatim>\<open>set(word)\<close>, the characters of the puzzle, the validated
  guesses) are single code points. An exception is a value of \<open>exn\<close>; a result dictionary
  is an association list from its keys to \<open>pyval\<close>s, in insertion order.
\<close>

type_synonym pychar = nat

type_synonym pystr = "pychar list"

definition ustr :: "string \<Rightarrow> pystr" where
  "ustr s = map of_char s"

datatype exn = ValueError pystr | RuntimeError pystr | IndexError pystr

fun str_exn :: "exn \<Rightarrow> pystr" where
  "str_exn (ValueError m) = m"
| "str_exn (RuntimeError m) = m"
| "str_exn (IndexError m) = m"

datatype pyval =
    PNone
  | PBool bool
  | PInt int
  | PStr pystr
  | PList "pyval list"
  | PDict "(string \<times> pyval) list"

type_synonym response = "(string \<times> pyval) list"

text \<open>
  The methods \<^verbatim>\<open>str.upper\<close>, \<^verbatim>\<open>str.lower\<close>, \<^verbatim>\<open>str.strip\<close> and \<^verbatim>\<open>str.isalpha\<close> belong to
  Python, not to this repository, and rest on the Unicode character database. They are
  a parameter \<open>L\<close> of the model: every operation that calls one of them takes \<open>L\<close>, and
  the theorems hold for every \<open>L\<close>, Python's own among them. \<open>ascii_lib\<close> is an \<open>L\<close> that
  computes; on strings of ASCII characters it does what Python does (\<open>agrees_on_ascii\<close>
  says so of an \<open>L\<close>), and the concrete runs below send it ASCII strings only.
\<close>

record pylib =
  str_upper :: "pystr \<Rightarrow> pystr"
  str_lower :: "pystr \<Rightarrow> pystr"
  str_strip :: "pystr \<Rightarrow> pystr"
  str_isalpha :: "pystr \<Rightarrow> bool"

definition ascii_upper_char :: "pychar \<Rightarrow> pychar" where
  "ascii_upper_char c = (if 97 \<le> c \<and> c \<le> 122 then c - 32 else c)"

definition ascii_lower_char :: "pychar \<Rightarrow> pychar" where
  "ascii_lower_char c = (if 65 \<le> c \<and> c \<le> 90 then c + 32 else c)"

definition ascii_space :: "pychar \<Rightarrow> bool" where
  "ascii_space c \<longleftrightarrow> (9 \<le> c \<and> c \<le> 13) \<or> (28 \<le> c \<and> c \<le> 32)"

definition ascii_alpha :: "pychar \<Rightarrow> bool" where
  "ascii_alpha c \<longleftrightarrow> (65 \<le> c \<and> c \<le> 90) \<or> (97 \<le> c \<and> c \<le> 122)"

definition ascii_lib :: pylib where
  "ascii_lib =
     \<lparr>str_upper = map ascii_upper_char,
      str_lower = map ascii_lower_char,
      str_strip = (\<lambda>s. rev (dropWhile ascii_space (rev (dropWhile ascii_space s)))),
      str_isalpha = (\<lambda>s. s \<noteq> [] \<and> list_all ascii_alpha s)\<rparr>"

definition is_ascii :: "pystr \<Rightarrow> bool" where
  "is_ascii s \<longleftrightarrow> list_all (\<lambda>c. c < 128) s"

definition agrees_on_ascii :: "pylib \<Rightarrow> bool" where
  "agrees_on_ascii L \<longleftrightarrow>
     (\<forall>s. is_ascii s \<longrightarrow>
        str_upper L s = str_upper ascii_lib s \<and> str_lower L s = str_lower ascii_lib s \<and>
        str_strip L s = str_strip ascii_lib s \<and> str_isalpha L s = str_isalpha ascii_lib s)"

fun str_join :: "pystr \<Rightarrow> pystr list \<Rightarrow> pystr" where
  "str_join sep [] = []"
| "str_join sep [x] = x"
| "str_join sep (x # y # ys) = x @ sep @ str_join sep (y # ys)"

definition quoted :: "pystr \<Rightarrow> pystr" where
  \<comment> \<open>\<^verbatim>\<open>'{s}'\<close> inside an f-string\<close>
  "quoted s = ustr [CHR 0x27] @ s @ ustr [CHR 0x27]"

definition py_index :: "'a list \<Rightarrow> int \<Rightarrow> exn + 'a" where
  \<comment> \<open>\<^verbatim>\<open>xs[i]\<close> on a tuple: an index below zero counts back from the end\<close>
  "py_index xs i =
     (if 0 \<le> i \<and> i < int (length xs) then Inr (xs ! nat i)
      else if - int (length xs) \<le> i \<and> i < 0 then Inr (xs ! nat (int (length xs) + i))
      else Inl (IndexError (ustr ''tuple index out of range'')))"

definition randint :: "int \<Rightarrow> int \<Rightarrow> nat \<Rightarrow> exn + int" where
  \<comment> \<open>\<^verbatim>\<open>random.randint(a, b)\<close>: some value of \<open>[a, b]\<close>, chosen by the draw \<open>r\<close>; the text of
      the error for an empty range differs between Python versions\<close>
  "randint a b r =
     (if a \<le> b then Inr (a + int r mod (b - a + 1))
      else Inl (ValueError (ustr ''empty range for randrange()'')))"

section \<open>Drawings and words\<close>

definition raw_lines :: "string list \<Rightarrow> pystr" where
  \<comment> \<open>a raw triple-quoted literal that opens with a line break: each line follows one\<close>
  "raw_lines ls = ustr (concat (map (\<lambda>l. CHR 0x0A # l) ls))"

definition get_hangman_images :: "pystr list" where
  "get_hangman_images =
    [raw_lines ['''', '''', ''    '', ''    '', ''    '', ''=====''],
     raw_lines [''    +'', ''    |'', ''    |'', ''    |'', ''    |'', ''    |'', ''=====''],
     raw_lines ['' +--+'', ''    |'', ''    |'', ''    |'', ''    |'', ''    |'', ''=====''],
     raw_lines ['' +--+'', '' |  |'', ''    |'', ''    |'', ''    |'', ''    |'', ''=====''],
     raw_lines ['' +--+'', '' |  |'', '' O  |'', ''    |'', ''    |'', ''    |'', ''=====''],
     raw_lines ['' +--+'', '' |  |'', '' O  |'', '' |  |'', ''    |'', ''    |'', ''=====''],
     raw_lines ['' +--+'', '' |  |'', '' O  |'', ''/|  |'', ''    |'', ''    |'', ''=====''],
     raw_lines ['' +--+'', '' |  |'', '' O  |'', ''/|'' @ [CHR 0x5C] @ '' |'', ''    |'',
                ''    |'', ''=====''],
     raw_lines ['' +--+'', '' |  |'', '' O  |'', ''/|'' @ [CHR 0x5C] @ '' |'', ''/   |'',
                ''    |'', ''=====''],
     raw_lines ['' +--+'', '' |  |'', '' O  |'', ''/|'' @ [CHR 0x5C] @ '' |'',
                ''/ '' @ [CHR 0x5C] @ '' |'', ''    |'', ''====='']]"

definition animal_words :: "string list" where
  \<comment> \<open>the tokens of \<^verbatim>\<open>animal_words.split()\<close>, in order\<close>
  "animal_words =
    [''Dog'', ''Cat'', ''Elephant'', ''Lion'', ''Tiger'', ''Giraffe'', ''Zebra'', ''Bear'',
     ''Koala'', ''Panda'', ''Kangaroo'', ''Penguin'', ''Dolphin'', ''Eagle'', ''Owl'', ''Fox'',
     ''Wolf'', ''Cheetah'', ''Leopard'', ''Jaguar'', ''Horse'', ''Cow'', ''Pig'', ''Sheep'',
     ''Goat'', ''Chicken'', ''Duck'', ''Goose'', ''Swan'', ''Octopus'', ''Shark'', ''Whale'',
     ''Platypus'', ''Chimpanzee'', ''Gorilla'', ''Orangutan'', ''Baboon'', ''Raccoon'',
     ''Squirrel'', ''Bat'', ''Hedgehog'', ''Armadillo'', ''Sloth'', ''Porcupine'', ''Anteater'',
     ''Camel'', ''Dingo'', ''Kangaroo'', ''Rat'', ''Lemur'', ''Meerkat'', ''Ocelot'', ''Parrot'',
     ''Quokka'', ''Vulture'', ''Wombat'', ''Yak'', ''Iguana'', ''jaguar'', ''Kakapo'',
     ''Lemming'', ''Manatee'', ''Nutria'', ''Ostrich'', ''Pangolin'', ''Quail'', ''Rhinoceros'',
     ''Serval'', ''Wallaby'', ''Coypu'', ''Tapir'', ''Pheasant'']"

definition get_word_list :: "pylib \<Rightarrow> pystr \<Rightarrow> exn + pystr list" where
  "get_word_list L category =
     (let category = str_lower L category;
          word_list_dict = [(ustr ''animals'', map ustr animal_words)]
      in case map_of word_list_dict category of
           Some words \<Rightarrow> Inr (map (str_upper L) words)
         | None \<Rightarrow> Inl (ValueError (ustr ''Invalid category.'')))"

definition get_secret_word :: "pylib \<Rightarrow> nat \<Rightarrow> exn + pystr" where
  \<comment> \<open>\<open>r\<close> is the draw behind \<^verbatim>\<open>randint\<close>\<close>
  "get_secret_word L r =
     (case get_word_list L (ustr ''animals'') of
        Inl exc \<Rightarrow> Inl (RuntimeError (ustr ''Unable to retrieve word list.''))
      | Inr words \<Rightarrow>
          (case randint 0 (int (length words) - 1) r of
             Inl e \<Rightarrow> Inl e
           | Inr i \<Rightarrow>
               (let secret_word = words ! nat i
                in if length secret_word > 0 then Inr secret_word
                   else Inl (RuntimeError (ustr ''Unable to return secret word.'')))))"

section \<open>GameState\<close>

record GameState =
  player_name :: pystr
  word :: pystr
  current_guess :: pystr
  guesses :: "pychar set"
  remaining_letters :: "pychar set"
  puzzle :: "(pychar \<times> bool) list"
  image_idx :: int
  is_active :: bool

definition GameState_default :: GameState where
  \<comment> \<open>\<^verbatim>\<open>GameState()\<close>\<close>
  "GameState_default =
     \<lparr>player_name = [], word = [], current_guess = [], guesses = {}, remaining_letters = {},
      puzzle = [], image_idx = 0, is_active = False\<rparr>"

definition initialize_game_state :: "GameState \<Rightarrow> GameState" where
  "initialize_game_state g =
     g\<lparr>remaining_letters := set (word g),
       puzzle := map (\<lambda>char. (char, False)) (word g),
       is_active := True\<rparr>"

definition update_puzzle :: "GameState \<Rightarrow> GameState" where
  "update_puzzle g =
     g\<lparr>puzzle := map (\<lambda>(char, val). (char, val \<or> [char] = current_guess g)) (puzzle g)\<rparr>"

definition update_state_on_guess :: "GameState \<Rightarrow> GameState" where
  \<comment> \<open>\<^verbatim>\<open>remove\<close> raises KeyError, caught here, when the guess is not a remaining letter\<close>
  "update_state_on_guess g =
     (if length (current_guess g) = 1 \<and> hd (current_guess g) \<in> remaining_letters g
      then update_puzzle (g\<lparr>remaining_letters := remaining_letters g - {hd (current_guess g)}\<rparr>)
      else g\<lparr>image_idx := image_idx g + 1\<rparr>)"

definition is_game_won :: "GameState \<Rightarrow> bool" where
  "is_game_won g \<longleftrightarrow> remaining_letters g = {}"

definition is_game_lost :: "GameState \<Rightarrow> bool" where
  "is_game_lost g \<longleftrightarrow> image_idx g \<ge> int (length get_hangman_images) - 1"

definition is_game_over :: "GameState \<Rightarrow> bool" where
  "is_game_over g \<longleftrightarrow> is_game_won g \<or> is_game_lost g"

definition get_display_word :: "GameState \<Rightarrow> pystr" where
  "get_display_word g =
     str_join (ustr '' '') (map (\<lambda>(char, val). if val then [char] else ustr ''_'') (puzzle g))"

definition reset_game :: "GameState \<Rightarrow> GameState" where
  "reset_game g =
     g\<lparr>word := [], current_guess := [], guesses := {}, remaining_letters := {},
       puzzle := [], image_idx := 0, is_active := False\<rparr>"

section \<open>The operations on the session registry\<close>

text \<open>
  \<^verbatim>\<open>game_sessions\<close> is a dictionary: an association list in insertion order, which
  \<^const>\<open>AList.update\<close> and \<^const>\<open>AList.delete\<close> keep as a Python \<^verbatim>\<open>dict\<close> does.
  Each tool only calls the function of the same name with a leading underscore; the
  definitions below are those functions under the tool's name. An operation returns the
  registry it leaves and either the exception it raises or the dictionary it returns.
\<close>

type_synonym registry = "(pystr \<times> GameState) list"

definition error_response :: "pystr \<Rightarrow> response" where
  "error_response m = [(''status'', PStr (ustr ''error'')), (''message'', PStr m)]"

definition start_hangman_game ::
  "exn + pystr \<Rightarrow> pystr \<Rightarrow> pystr \<Rightarrow> registry \<Rightarrow> registry \<times> response" where
  \<comment> \<open>\<open>secret\<close> is the outcome of the call \<^verbatim>\<open>get_secret_word()\<close>\<close>
  "start_hangman_game secret player_name' session_id game_sessions =
     (let game_state = (case map_of game_sessions session_id of
                          None \<Rightarrow> GameState_default | Some g \<Rightarrow> g);
          game_state = reset_game game_state;
          game_state = game_state\<lparr>player_name := player_name'\<rparr>
      in case secret of
           Inl e \<Rightarrow>
             (AList.update session_id game_state game_sessions,
              error_response (ustr ''Failed to start game: '' @ str_exn e))
         | Inr w \<Rightarrow>
             (let game_state = initialize_game_state (game_state\<lparr>word := w\<rparr>)
              in (AList.update session_id game_state game_sessions,
                  [(''status'', PStr (ustr ''success'')),
                   (''message'',
                      PStr (ustr ''New game started for '' @ player_name' @ ustr ''!'')),
                   (''word_length'', PInt (int (length (word game_state)))),
                   (''display_word'', PStr (get_display_word game_state)),
                   (''hangman_image'', PStr (get_hangman_images ! 0)),
                   (''guesses_remaining'', PInt (int (length get_hangman_images) - 1)),
                   (''session_id'', PStr session_id)])))"

definition apply_guess :: "pystr \<Rightarrow> GameState \<Rightarrow> GameState \<times> (exn + response)" where
  \<comment> \<open>lines 303 to 342 of \<^verbatim>\<open>_make_guess\<close>, on the session's state; \<open>letter\<close> has length one,
      so that \<^verbatim>\<open>letter in game_state.word\<close> is membership of its character\<close>
  "apply_guess letter game_state =
     (let game_state = game_state\<lparr>current_guess := letter\<rparr>;
          game_state = game_state\<lparr>guesses := insert (hd letter) (guesses game_state)\<rparr>;
          is_correct = (hd letter \<in> set (word game_state));
          game_state = update_state_on_guess game_state
      in case py_index get_hangman_images (image_idx game_state) of
           Inl e \<Rightarrow> (game_state, Inl e)
         | Inr img \<Rightarrow>
             (let response =
                [(''status'', PStr (ustr ''success'')),
                 (''letter'', PStr letter),
                 (''correct'', PBool is_correct),
                 (''display_word'', PStr (get_display_word game_state)),
                 (''hangman_image'', PStr img),
                 (''guesses_made'',
                    PList (map (\<lambda>c. PStr [c]) (sorted_list_of_set (guesses game_state)))),
                 (''guesses_remaining'',
                    PInt (int (length get_hangman_images) - 1 - image_idx game_state))]
              in if is_game_won game_state then
                   (game_state\<lparr>is_active := False\<rparr>,
                    Inr (response @
                      [(''game_over'', PBool True), (''won'', PBool True),
                       (''message'',
                          PStr (ustr ''Congratulations '' @ player_name game_state
                            @ ustr ''! You won! The word was '' @ quoted (word game_state)
                            @ ustr ''.''))]))
                 else if is_game_lost game_state then
                   (game_state\<lparr>is_active := False\<rparr>,
                    Inr (response @
                      [(''game_over'', PBool True), (''won'', PBool False),
                       (''message'',
                          PStr (ustr ''Game over '' @ player_name game_state
                            @ ustr ''! The word was '' @ quoted (word game_state)
                            @ ustr ''. Better luck next time!''))]))
                 else
                   (game_state,
                    Inr (response @
                      [(''game_over'', PBool False),
                       (''message'', PStr (if is_correct
                          then ustr ''Good guess! '' @ quoted letter @ ustr '' is in the word.''
                          else ustr ''Sorry, '' @ quoted letter
                                 @ ustr '' is not in the word.''))]))))"

definition make_guess ::
  "pylib \<Rightarrow> pystr \<Rightarrow> pystr \<Rightarrow> registry \<Rightarrow> registry \<times> (exn + response)" where
  "make_guess L letter session_id game_sessions =
     (case map_of game_sessions session_id of
        None \<Rightarrow>
          (game_sessions,
           Inr (error_response (ustr ''No active game found. Start a new game first.'')))
      | Some game_state \<Rightarrow>
          if \<not> is_active game_state then
            (game_sessions,
             Inr (error_response (ustr ''No active game. Start a new game first.'')))
          else if is_game_over game_state then
            (game_sessions,
             Inr (error_response (ustr ''Game is already over. Start a new game.'')))
          else
            (let letter = str_strip L (str_upper L letter)
             in if length letter \<noteq> 1 \<or> \<not> str_isalpha L letter then
                  (game_sessions,
                   Inr (error_response (ustr ''Please provide exactly one letter.'')))
                else if hd letter \<in> guesses game_state then
                  (game_sessions,
                   Inr (error_response (ustr ''You've already guessed '' @ quoted letter
                          @ ustr ''. Try a different letter.'')))
                else
                  (case apply_guess letter game_state of
                     (game_state, result) \<Rightarrow>
                       (AList.update session_id game_state game_sessions, result))))"

definition get_game_status :: "pystr \<Rightarrow> registry \<Rightarrow> exn + response" where
  "get_game_status session_id game_sessions =
     (case map_of game_sessions session_id of
        None \<Rightarrow>
          Inr [(''status'', PStr (ustr ''no_game'')),
               (''message'', PStr (ustr ''No game session found. Start a new game first.''))]
      | Some game_state \<Rightarrow>
          if \<not> is_active game_state \<and> \<not> is_game_over game_state then
            Inr [(''status'', PStr (ustr ''no_active_game'')),
                 (''message'', PStr (ustr ''No active game. Start a new game first.''))]
          else
            (case py_index get_hangman_images (image_idx game_state) of
               Inl e \<Rightarrow> Inl e
             | Inr img \<Rightarrow>
                 Inr [(''status'', PStr (if is_active game_state then ustr ''active''
                                         else ustr ''finished'')),
                      (''player_name'', PStr (player_name game_state)),
                      (''word_length'', PInt (int (length (word game_state)))),
                      (''display_word'', PStr (get_display_word game_state)),
                      (''hangman_image'', PStr img),
                      (''guesses_made'',
                         PList (map (\<lambda>c. PStr [c]) (sorted_list_of_set (guesses game_state)))),
                      (''guesses_remaining'',
                         PInt (int (length get_hangman_images) - 1 - image_idx game_state)),
                      (''game_over'', PBool (is_game_over game_state)),
                      (''won'', if is_game_over game_state
                                then PBool (is_game_won game_state) else PNone),
                      (''session_id'', PStr session_id)]))"

definition list_active_sessions :: "registry \<Rightarrow> response" where
  "list_active_sessions game_sessions =
     (let sessions =
        map (\<lambda>(session_id, game_state).
               PDict [(''session_id'', PStr session_id),
                      (''player_name'', PStr (player_name game_state)),
                      (''active'', PBool (is_active game_state)),
                      (''word_length'', PInt (if word game_state \<noteq> []
                                             then int (length (word game_state)) else 0)),
                      (''guesses_made'', PInt (int (card (guesses game_state)))),
                      (''game_over'', PBool (is_game_over game_state))])
            game_sessions
      in [(''status'', PStr (ustr ''success'')),
          (''sessions'', PList sessions),
          (''total_sessions'', PInt (int (length sessions)))])"

definition end_game :: "pystr \<Rightarrow> registry \<Rightarrow> registry \<times> response" where
  "end_game session_id game_sessions =
     (case map_of game_sessions session_id of
        None \<Rightarrow> (game_sessions, error_response (ustr ''No game session found.''))
      | Some game_state \<Rightarrow>
          (AList.delete session_id game_sessions,
           [(''status'', PStr (ustr ''success'')),
            (''message'',
               PStr (ustr ''Game ended for '' @ player_name game_state
                 @ ustr ''. The word was '' @ quoted (word game_state)
                 @ ustr ''. Thanks for playing!''))]))"

section \<open>Runs of the server\<close>

text \<open>
  A call of a tool. \<open>Start\<close> carries the draw behind \<^verbatim>\<open>randint\<close>; the secret word is what
  \<open>get_secret_word\<close> returns for it. The registry is empty when the process starts; a
  registry is reachable when calls lead to it from there, whatever their arguments.
\<close>

datatype call =
    Start nat pystr pystr
  | Guess pystr pystr
  | Status pystr
  | ListSessions
  | EndGame pystr

fun step :: "pylib \<Rightarrow> call \<Rightarrow> registry \<Rightarrow> registry \<times> (exn + response)" where
  "step L (Start r player session_id) gs =
     (case start_hangman_game (get_secret_word L r) player session_id gs of
        (gs', res) \<Rightarrow> (gs', Inr res))"
| "step L (Guess letter session_id) gs = make_guess L letter session_id gs"
| "step L (Status session_id) gs = (gs, get_game_status session_id gs)"
| "step L ListSessions gs = (gs, Inr (list_active_sessions gs))"
| "step L (EndGame session_id) gs =
     (case end_game session_id gs of (gs', res) \<Rightarrow> (gs', Inr res))"

inductive reachable :: "pylib \<Rightarrow> registry \<Rightarrow> bool" for L :: pylib where
  initial: "reachable L []"
| after_call: "reachable L gs \<Longrightarrow> reachable L (fst (step L c gs))"

fun run :: "pylib \<Rightarrow> call list \<Rightarrow> registry \<Rightarrow> registry" where
  "run L [] gs = gs"
| "run L (c # cs) gs = run L cs (fst (step L c gs))"

section \<open>Invariants of the game state\<close>

text \<open>
  What every game state of a reachable registry satisfies. \<open>record_guess\<close> names the state
  \<^verbatim>\<open>_make_guess\<close> has built once the guess is stored and scored (lines 304, 305 and 307);
  \<open>shown\<close> is the character a position of the puzzle displays.
\<close>

definition game_inv :: "pylib \<Rightarrow> GameState \<Rightarrow> bool" where
  "game_inv L g \<longleftrightarrow>
     0 \<le> image_idx g \<and> image_idx g \<le> 9 \<and>
     remaining_letters g = set (word g) - guesses g \<and>
     map fst (puzzle g) = word g \<and>
     (\<forall>(c, v) \<in> set (puzzle g). v \<longleftrightarrow> c \<in> guesses g) \<and>
     (\<forall>c \<in> guesses g. str_isalpha L [c]) \<and>
     finite (guesses g) \<and>
     (is_active g \<longleftrightarrow> \<not> is_game_over g)"

definition registry_inv :: "pylib \<Rightarrow> registry \<Rightarrow> bool" where
  "registry_inv L gs \<longleftrightarrow>
     distinct (map fst gs) \<and> (\<forall>s g. map_of gs s = Some g \<longrightarrow> game_inv L g)"

definition record_guess :: "pychar \<Rightarrow> GameState \<Rightarrow> GameState" where
  "record_guess c g = update_state_on_guess (g\<lparr>current_guess := [c], guesses := insert c (guesses g)\<rparr>)"

definition shown :: "pychar \<times> bool \<Rightarrow> pychar" where
  "shown p = (if snd p then fst p else of_char (CHR ''_''))"

section \<open>Example runs\<close>

text \<open>
  Concrete runs of the server, at which the theorems below are instantiated. The draw 1
  selects the word \<^verbatim>\<open>CAT\<close>. \<open>failed_start\<close> is the registry a start leaves when the word
  selection raises.
\<close>

definition eight_misses :: registry where
  "eight_misses =
     run ascii_lib
       [Start 1 (ustr ''Bob'') (ustr ''s''), Guess (ustr ''b'') (ustr ''s''),
        Guess (ustr ''d'') (ustr ''s''), Guess (ustr ''e'') (ustr ''s''),
        Guess (ustr ''f'') (ustr ''s''), Guess (ustr ''g'') (ustr ''s''),
        Guess (ustr ''h'') (ustr ''s''), Guess (ustr ''i'') (ustr ''s''),
        Guess (ustr ''j'') (ustr ''s'')] []"

definition eight_misses_state :: GameState where
  "eight_misses_state =
     \<lparr>player_name = ustr ''Bob'', word = ustr ''CAT'', current_guess = ustr ''J'',
      guesses = set (ustr ''JIHGFEDB''), remaining_letters = set (ustr ''CAT''),
      puzzle = zip (ustr ''CAT'') [False, False, False], image_idx = 8, is_active = True\<rparr>"

definition one_hit :: registry where
  "one_hit =
     run ascii_lib [Start 1 (ustr ''Alice'') (ustr ''s''), Guess (ustr ''A'') (ustr ''s'')] []"

definition one_hit_state :: GameState where
  "one_hit_state =
     \<lparr>player_name = ustr ''Alice'', word = ustr ''CAT'', current_guess = ustr ''A'',
      guesses = set (ustr ''A''), remaining_letters = set (ustr ''CT''),
      puzzle = zip (ustr ''CAT'') [False, True, False], image_idx = 0, is_active = True\<rparr>"

definition won_game :: registry where
  "won_game =
     run ascii_lib
       [Start 1 (ustr ''Alice'') (ustr ''s''), Guess (ustr ''C'') (ustr ''s''),
        Guess (ustr ''A'') (ustr ''s''), Guess (ustr ''T'') (ustr ''s'')] []"

definition won_state :: GameState where
  "won_state =
     \<lparr>player_name = ustr ''Alice'', word = ustr ''CAT'', current_guess = ustr ''T'',
      guesses = set (ustr ''TAC''), remaining_letters = {},
      puzzle = zip (ustr ''CAT'') [True, True, True], image_idx = 0, is_active = False\<rparr>"



definition mixed_calls :: registry where
  "mixed_calls =
     run ascii_lib
       [Start 1 (ustr ''Alice'') (ustr ''s''), Guess (ustr ''c'') (ustr ''s''),
        Guess (ustr ''x'') (ustr ''s''), Status (ustr ''s''), ListSessions,
        EndGame (ustr ''t'')] []"

definition mixed_calls_state :: GameState where
  "mixed_calls_state =
     \<lparr>player_name = ustr ''Alice'', word = ustr ''CAT'', current_guess = ustr ''X'',
      guesses = set (ustr ''XC''), remaining_letters = set (ustr ''AT''),
      puzzle = zip (ustr ''CAT'') [True, False, False], image_idx = 1, is_active = True\<rparr>"

text \<open>A call whose guessed letter is a string of ASCII characters.\<close>

fun ascii_call :: "call \<Rightarrow> bool" where
  "ascii_call (Guess letter session_id) \<longleftrightarrow> is_ascii letter"
| "ascii_call _ \<longleftrightarrow> True"

section \<open>The invariants hold in every reachable registry\<close>

lemma length_images: "length get_hangman_images = 10"
  by (simp add: get_hangman_images_def)

lemma py_index_images:
  "0 \<le> i \<Longrightarrow> i \<le> 9 \<Longrightarrow> py_index get_hangman_images i = Inr (get_hangman_images ! nat i)"
  by (simp add: py_index_def length_images)

lemma game_inv_reset: "game_inv L (reset_game g\<lparr>player_name := p\<rparr>)"
  by (simp add: game_inv_def reset_game_def is_game_over_def is_game_won_def)

lemma game_inv_start:
  "w \<noteq> [] \<Longrightarrow> game_inv L (initialize_game_state (reset_game g\<lparr>player_name := p, word := w\<rparr>))"
  by (simp add: game_inv_def reset_game_def initialize_game_state_def is_game_over_def
      is_game_won_def is_game_lost_def length_images o_def)

lemma record_guess_hit:
  "c \<in> remaining_letters g \<Longrightarrow>
   record_guess c g = g\<lparr>current_guess := [c], guesses := insert c (guesses g),
       remaining_letters := remaining_letters g - {c},
       puzzle := map (\<lambda>(char, val). (char, val \<or> char = c)) (puzzle g)\<rparr>"
  by (simp add: record_guess_def update_state_on_guess_def update_puzzle_def)

lemma record_guess_miss:
  "c \<notin> remaining_letters g \<Longrightarrow>
   record_guess c g = g\<lparr>current_guess := [c], guesses := insert c (guesses g),
       image_idx := image_idx g + 1\<rparr>"
  by (simp add: record_guess_def update_state_on_guess_def)

lemma fst_apply_guess_unfold:
  "fst (apply_guess [c] g) =
     (case py_index get_hangman_images (image_idx (record_guess c g)) of
        Inl e \<Rightarrow> record_guess c g
      | Inr img \<Rightarrow>
          (if is_game_over (record_guess c g) then (record_guess c g)\<lparr>is_active := False\<rparr>
           else record_guess c g))"
  by (simp add: apply_guess_def record_guess_def Let_def is_game_over_def split: sum.splits)

lemma record_guess_simps:
  "guesses (record_guess c g) = insert c (guesses g)"
  "word (record_guess c g) = word g"
  "player_name (record_guess c g) = player_name g"
  "is_active (record_guess c g) = is_active g"
  "current_guess (record_guess c g) = [c]"
  "remaining_letters (record_guess c g) = remaining_letters g - {c}"
  "image_idx (record_guess c g) = (if c \<in> remaining_letters g then image_idx g else image_idx g + 1)"
  "puzzle (record_guess c g) =
     (if c \<in> remaining_letters g
      then map (\<lambda>(char, val). (char, val \<or> char = c)) (puzzle g) else puzzle g)"
  by (cases "c \<in> remaining_letters g"; simp add: record_guess_hit record_guess_miss)+

lemma map_fst_reveal: "fst \<circ> (\<lambda>(char, val). (char, val \<or> char = c)) = fst"
  by (rule ext) (simp add: case_prod_beta)

lemma map_fst_puzzle_record_guess: "map fst (puzzle (record_guess c g)) = map fst (puzzle g)"
  by (simp add: record_guess_simps map_fst_reveal)

lemma not_over_bounds:
  "game_inv L g \<Longrightarrow> is_active g \<Longrightarrow> image_idx g < 9 \<and> remaining_letters g \<noteq> {}"
  by (auto simp: game_inv_def is_game_over_def is_game_lost_def is_game_won_def length_images)

lemma image_idx_record_guess_le:
  assumes "game_inv L g" "is_active g"
  shows "0 \<le> image_idx (record_guess c g) \<and> image_idx (record_guess c g) \<le> 9"
  using not_over_bounds [OF assms] assms(1) by (simp add: record_guess_simps game_inv_def)

lemma puzzle_record_guess_inv:
  assumes "game_inv L g" "c \<notin> guesses g"
  shows "\<forall>(ch, v) \<in> set (puzzle (record_guess c g)). v \<longleftrightarrow> ch \<in> insert c (guesses g)"
proof (cases "c \<in> remaining_letters g")
  case True
  from assms(1) have "\<forall>(ch, v) \<in> set (puzzle g). v \<longleftrightarrow> ch \<in> guesses g"
    by (simp add: game_inv_def)
  then show ?thesis using True by (auto simp: record_guess_simps)
next
  case False
  from assms(1) have p: "\<forall>(ch, v) \<in> set (puzzle g). v \<longleftrightarrow> ch \<in> guesses g"
    and w: "map fst (puzzle g) = word g"
    and r: "remaining_letters g = set (word g) - guesses g"
    by (simp_all add: game_inv_def)
  from False r assms(2) have "c \<notin> set (word g)" by simp
  with w have "c \<notin> fst ` set (puzzle g)" by (metis set_map)
  then have "\<forall>(ch, v) \<in> set (puzzle g). ch \<noteq> c" by force
  with p False show ?thesis by (auto simp: record_guess_simps)
qed

lemma game_inv_record_guess:
  assumes "game_inv L g" "is_active g" "str_isalpha L [c]" "c \<notin> guesses g"
  shows "game_inv L (if is_game_over (record_guess c g)
                   then (record_guess c g)\<lparr>is_active := False\<rparr> else record_guess c g)"
proof -
  let ?g = "record_guess c g"
  have i: "0 \<le> image_idx ?g \<and> image_idx ?g \<le> 9"
    by (rule image_idx_record_guess_le [OF assms(1,2)])
  from assms(1) have "remaining_letters g = set (word g) - guesses g"
    by (simp add: game_inv_def)
  then have r: "remaining_letters ?g = set (word ?g) - guesses ?g"
    by (auto simp: record_guess_simps)
  from assms(1) have w: "map fst (puzzle ?g) = word ?g"
    by (simp add: map_fst_puzzle_record_guess record_guess_simps(2) game_inv_def)
  have p: "\<forall>(ch, v) \<in> set (puzzle ?g). v \<longleftrightarrow> ch \<in> guesses ?g"
    using puzzle_record_guess_inv [OF assms(1,4)] by (simp only: record_guess_simps(1))
  from assms(1,3) have a: "\<forall>ch \<in> guesses ?g. str_isalpha L [ch]"
    by (simp add: record_guess_simps game_inv_def)
  from assms(1) have f: "finite (guesses ?g)"
    by (simp add: record_guess_simps game_inv_def)
  have act: "is_active ?g" using assms(2) by (simp add: record_guess_simps)
  show ?thesis
  proof (cases "is_game_over ?g")
    case True
    have "game_inv L (?g\<lparr>is_active := False\<rparr>)"
      unfolding game_inv_def using i r w p a f True
      by (simp add: is_game_over_def is_game_won_def is_game_lost_def)
    with True show ?thesis by simp
  next
    case False
    have "game_inv L ?g"
      unfolding game_inv_def using i r w p a f False act by simp
    with False show ?thesis by simp
  qed
qed

lemma py_index_record_guess:
  assumes "game_inv L g" "is_active g"
  shows "py_index get_hangman_images (image_idx (record_guess c g))
          = Inr (get_hangman_images ! nat (image_idx (record_guess c g)))"
  using image_idx_record_guess_le [OF assms] by (simp add: py_index_images)

lemma fst_apply_guess:
  assumes "game_inv L g" "is_active g"
  shows "fst (apply_guess [c] g) =
           (if is_game_over (record_guess c g) then (record_guess c g)\<lparr>is_active := False\<rparr>
            else record_guess c g)"
  by (simp add: fst_apply_guess_unfold py_index_record_guess [OF assms])

lemma game_inv_apply_guess:
  assumes "game_inv L g" "is_active g" "str_isalpha L [c]" "c \<notin> guesses g"
  shows "game_inv L (fst (apply_guess [c] g))"
  using game_inv_record_guess [OF assms] by (simp add: fst_apply_guess [OF assms(1,2)])


lemma registry_inv_empty: "registry_inv L []"
  by (simp add: registry_inv_def)

lemma registry_inv_update:
  "registry_inv L gs \<Longrightarrow> game_inv L g \<Longrightarrow> registry_inv L (AList.update s g gs)"
  by (simp add: registry_inv_def distinct_update update_conv')

lemma registry_inv_delete: "registry_inv L gs \<Longrightarrow> registry_inv L (AList.delete s gs)"
  by (simp add: registry_inv_def distinct_delete delete_conv')

lemma registry_inv_start:
  assumes "registry_inv L gs" "\<And>w. secret = Inr w \<Longrightarrow> w \<noteq> []"
  shows "registry_inv L (fst (start_hangman_game secret p s gs))"
proof (cases secret)
  case (Inl e)
  then show ?thesis
    by (simp add: start_hangman_game_def Let_def registry_inv_update [OF assms(1)] game_inv_reset)
next
  case (Inr w)
  with assms(2) have "w \<noteq> []" by simp
  then have "\<And>g. game_inv L (initialize_game_state (reset_game g\<lparr>player_name := p, word := w\<rparr>))"
    by (rule game_inv_start)
  with Inr show ?thesis
    by (simp add: start_hangman_game_def Let_def registry_inv_update [OF assms(1)])
qed

lemma single_letter:
  "length l = 1 \<Longrightarrow> str_isalpha L l \<Longrightarrow> \<exists>c. l = [c] \<and> str_isalpha L [c]"
  by (cases l) auto

lemma make_guess_accept:
  assumes "map_of gs s = Some g" "is_active g" "\<not> is_game_over g"
    and "str_strip L (str_upper L letter) = [c]" "str_isalpha L [c]" "c \<notin> guesses g"
  shows "make_guess L letter s gs
           = (AList.update s (fst (apply_guess [c] g)) gs, snd (apply_guess [c] g))"
  using assms by (simp add: make_guess_def case_prod_beta Let_def)

lemma apply_guess_response:
  assumes "py_index get_hangman_images (image_idx (record_guess c g)) = Inr img"
  shows "\<exists>r. snd (apply_guess [c] g) = Inr r \<and>
           map_of r ''status'' = Some (PStr (ustr ''success'')) \<and>
           map_of r ''letter'' = Some (PStr [c]) \<and>
           map_of r ''correct'' = Some (PBool (c \<in> set (word g))) \<and>
           map_of r ''game_over'' = Some (PBool (is_game_over (record_guess c g))) \<and>
           map_of r ''won'' = (if is_game_over (record_guess c g)
                               then Some (PBool (is_game_won (record_guess c g))) else None)"
  using assms by (simp add: apply_guess_def record_guess_def Let_def is_game_over_def)

lemma make_guess_cases:
  "(\<exists>m. make_guess L letter s gs = (gs, Inr (error_response m))) \<or>
   (\<exists>g c. map_of gs s = Some g \<and> is_active g \<and> \<not> is_game_over g \<and>
           str_strip L (str_upper L letter) = [c] \<and> str_isalpha L [c] \<and> c \<notin> guesses g)"
proof (cases "map_of gs s")
  case None
  then show ?thesis by (auto simp: make_guess_def)
next
  case (Some g)
  show ?thesis
  proof (cases "is_active g \<and> \<not> is_game_over g \<and> length (str_strip L (str_upper L letter)) = 1
      \<and> str_isalpha L (str_strip L (str_upper L letter)) \<and> hd (str_strip L (str_upper L letter)) \<notin> guesses g")
    case True
    then obtain c where "str_strip L (str_upper L letter) = [c]" "str_isalpha L [c]"
      using single_letter by blast
    with True Some show ?thesis by auto
  next
    case False
    with Some show ?thesis by (auto simp: make_guess_def Let_def)
  qed
qed

lemma registry_inv_make_guess:
  assumes "registry_inv L gs"
  shows "registry_inv L (fst (make_guess L letter s gs))"
  using make_guess_cases [of L letter s gs]
proof
  assume "\<exists>m. make_guess L letter s gs = (gs, Inr (error_response m))"
  with assms show ?thesis by auto
next
  assume "\<exists>g c. map_of gs s = Some g \<and> is_active g \<and> \<not> is_game_over g \<and>
           str_strip L (str_upper L letter) = [c] \<and> str_isalpha L [c] \<and> c \<notin> guesses g"
  then obtain g c where h: "map_of gs s = Some g" "is_active g" "\<not> is_game_over g"
    "str_strip L (str_upper L letter) = [c]" "str_isalpha L [c]" "c \<notin> guesses g" by blast
  from assms h(1) have "game_inv L g" by (simp add: registry_inv_def)
  then have "game_inv L (fst (apply_guess [c] g))"
    using h(2,5,6) by (rule game_inv_apply_guess)
  with assms show ?thesis
    by (simp add: make_guess_accept [OF h] registry_inv_update)
qed

lemma make_guess_returns:
  assumes "registry_inv L gs"
  shows "\<exists>r. snd (make_guess L letter s gs) = Inr r"
  using make_guess_cases [of L letter s gs]
proof
  assume "\<exists>m. make_guess L letter s gs = (gs, Inr (error_response m))"
  then show ?thesis by auto
next
  assume "\<exists>g c. map_of gs s = Some g \<and> is_active g \<and> \<not> is_game_over g \<and>
           str_strip L (str_upper L letter) = [c] \<and> str_isalpha L [c] \<and> c \<notin> guesses g"
  then obtain g c where h: "map_of gs s = Some g" "is_active g" "\<not> is_game_over g"
    "str_strip L (str_upper L letter) = [c]" "str_isalpha L [c]" "c \<notin> guesses g" by blast
  from assms h(1) have "game_inv L g" by (simp add: registry_inv_def)
  from apply_guess_response [OF py_index_record_guess [OF this h(2)]]
  show ?thesis by (auto simp: make_guess_accept [OF h])
qed

lemma get_game_status_returns:
  assumes "registry_inv L gs"
  shows "\<exists>r. get_game_status s gs = Inr r"
proof (cases "map_of gs s")
  case None
  then show ?thesis by (simp add: get_game_status_def)
next
  case (Some g)
  with assms have "0 \<le> image_idx g" "image_idx g \<le> 9"
    by (simp_all add: registry_inv_def game_inv_def)
  then show ?thesis using Some by (simp add: get_game_status_def py_index_images)
qed

lemma get_secret_word_nonempty: "get_secret_word L r = Inr w \<Longrightarrow> w \<noteq> []"
  by (auto simp: get_secret_word_def Let_def split: sum.splits if_splits)

lemma registry_inv_step:
  assumes "registry_inv L gs"
  shows "registry_inv L (fst (step L c gs))"
proof (cases c)
  case (Start r p s)
  have "registry_inv L (fst (start_hangman_game (get_secret_word L r) p s gs))"
    using assms get_secret_word_nonempty by (rule registry_inv_start)
  with Start show ?thesis by (simp add: case_prod_beta)
next
  case (Guess letter s)
  with assms show ?thesis by (simp add: registry_inv_make_guess)
next
  case (EndGame s)
  with assms show ?thesis
    by (simp add: end_game_def case_prod_beta registry_inv_delete split: option.splits)
qed (use assms in simp_all)

lemma reachable_registry_inv: "reachable L gs \<Longrightarrow> registry_inv L gs"
  by (induction rule: reachable.induct) (simp_all add: registry_inv_empty registry_inv_step)

lemma reachable_game_inv: "reachable L gs \<Longrightarrow> map_of gs s = Some g \<Longrightarrow> game_inv L g"
  using reachable_registry_inv by (simp add: registry_inv_def)

lemma reachable_run: "reachable L gs \<Longrightarrow> reachable L (run L cs gs)"
  by (induction cs arbitrary: gs) (simp_all add: reachable.after_call)

section \<open>The concrete runs\<close>

text \<open>
  The definitions a concrete run unfolds to, the word each draw selects under \<open>ascii_lib\<close>,
  and the states the example runs end in.
\<close>

lemmas eval_defs = start_hangman_game_def make_guess_def apply_guess_def get_game_status_def
  end_game_def reset_game_def initialize_game_state_def update_state_on_guess_def
  update_puzzle_def is_game_won_def is_game_lost_def is_game_over_def get_display_word_def
  GameState_default_def ascii_lib_def ascii_upper_char_def ascii_space_def ascii_alpha_def
  py_index_def error_response_def quoted_def ustr_def Let_def length_images

lemma length_animal_words: "length animal_words = 72"
  by (simp add: animal_words_def)

lemma animal_words_nonempty: "\<forall>w \<in> set animal_words. w \<noteq> []"
  by (simp add: animal_words_def)

lemma lower_animals: "str_lower ascii_lib (ustr ''animals'') = ustr ''animals''"
  by (simp add: ascii_lib_def ascii_lower_char_def ustr_def)

lemma get_word_list_ascii:
  "get_word_list ascii_lib (ustr ''animals'') = Inr (map (str_upper ascii_lib) (map ustr animal_words))"
  by (simp add: get_word_list_def lower_animals)

lemma get_secret_word_ascii:
  "get_secret_word ascii_lib r
     = Inr (str_upper ascii_lib (ustr (animal_words ! (r mod 72))))"
proof -
  have i: "r mod 72 < length animal_words" by (simp add: length_animal_words)
  then have "animal_words ! (r mod 72) \<in> set animal_words" by (rule nth_mem)
  with animal_words_nonempty have ne: "animal_words ! (r mod 72) \<noteq> []" by blast
  have n: "nat (int r mod 72) = r mod 72" by (simp add: nat_mod_distrib)
  have u: "str_upper ascii_lib (ustr w) \<noteq> []" if "w \<noteq> []" for w
    using that by (simp add: ascii_lib_def ustr_def)
  have r: "randint 0 (int (length (map (str_upper ascii_lib) (map ustr animal_words))) - 1) r
             = Inr (int r mod 72)"
    by (simp add: randint_def length_animal_words)
  show ?thesis
    unfolding get_secret_word_def get_word_list_ascii sum.case r Let_def n
    using i u [OF ne] by simp
qed

lemma secret_word_draw_1: "get_secret_word ascii_lib 1 = Inr (ustr ''CAT'')"
  unfolding get_secret_word_ascii
  by (simp add: animal_words_def ascii_lib_def ascii_upper_char_def ustr_def)

lemma reachable_one_hit: "reachable ascii_lib one_hit"
  unfolding one_hit_def by (rule reachable_run [OF reachable.initial])

lemma map_of_one_hit: "map_of one_hit (ustr ''s'') = Some one_hit_state"
  unfolding one_hit_def run.simps step.simps secret_word_draw_1
  by (simp add: one_hit_state_def eval_defs insert_Diff_if)

lemma reachable_eight_misses: "reachable ascii_lib eight_misses"
  unfolding eight_misses_def by (rule reachable_run [OF reachable.initial])

lemma map_of_eight_misses: "map_of eight_misses (ustr ''s'') = Some eight_misses_state"
  unfolding eight_misses_def run.simps step.simps secret_word_draw_1
  by (simp add: eight_misses_state_def eval_defs insert_Diff_if)

lemma reachable_won_game: "reachable ascii_lib won_game"
  unfolding won_game_def by (rule reachable_run [OF reachable.initial])

lemma map_of_won_game: "map_of won_game (ustr ''s'') = Some won_state"
  unfolding won_game_def run.simps step.simps secret_word_draw_1
  by (simp add: won_state_def eval_defs insert_Diff_if)


lemma reachable_mixed_calls: "reachable ascii_lib mixed_calls"
  unfolding mixed_calls_def by (rule reachable_run [OF reachable.initial])

lemma map_of_mixed_calls: "map_of mixed_calls (ustr ''s'') = Some mixed_calls_state"
  unfolding mixed_calls_def run.simps step.simps secret_word_draw_1
  by (simp add: mixed_calls_state_def eval_defs insert_Diff_if)

section \<open>Properties of the game\<close>

lemma puzzle_nth:
  assumes "game_inv L g" "i < length (word g)"
  shows "fst (puzzle g ! i) = word g ! i \<and> (snd (puzzle g ! i) \<longleftrightarrow> word g ! i \<in> guesses g)"
proof -
  from assms(1) have w: "map fst (puzzle g) = word g"
    and p: "\<forall>(c, v) \<in> set (puzzle g). v \<longleftrightarrow> c \<in> guesses g"
    by (simp_all add: game_inv_def)
  from w have len: "length (puzzle g) = length (word g)" by (metis length_map)
  with assms(2) have i: "i < length (puzzle g)" by simp
  then have f: "fst (puzzle g ! i) = word g ! i" using w by (metis nth_map)
  from i have "puzzle g ! i \<in> set (puzzle g)" by simp
  with p have "snd (puzzle g ! i) \<longleftrightarrow> fst (puzzle g ! i) \<in> guesses g"
    by (auto simp: case_prod_beta)
  with f show ?thesis by simp
qed

text \<open>
  C3. In every reachable registry, for every session and every position \<open>i\<close> of its
  secret word, the puzzle holds the word's character at \<open>i\<close>, and its \<open>guessed\<close> flag is
  true exactly when that character is among the guessed letters. Reachable registries are
  those that start, guess, status, list and end calls lead to from the empty registry,
  whatever strings they are given and whatever the string library \<open>L\<close>.
\<close>

theorem revealed_iff_guessed:
  assumes "reachable L gs" "map_of gs s = Some g"
  shows "length (puzzle g) = length (word g) \<and>
         (\<forall>i < length (word g).
            fst (puzzle g ! i) = word g ! i \<and>
            (snd (puzzle g ! i) \<longleftrightarrow> word g ! i \<in> guesses g))"
proof -
  have inv: "game_inv L g" using assms by (rule reachable_game_inv)
  then have "map fst (puzzle g) = word g" by (simp add: game_inv_def)
  then have "length (puzzle g) = length (word g)" by (metis length_map)
  with puzzle_nth [OF inv] show ?thesis by simp
qed

theorem revealed_iff_guessed_witness:
  "reachable ascii_lib mixed_calls \<and>
   map_of mixed_calls (ustr ''s'') = Some mixed_calls_state \<and>
   length (puzzle mixed_calls_state) = length (word mixed_calls_state) \<and>
   (snd (puzzle mixed_calls_state ! 0)
      \<longleftrightarrow> word mixed_calls_state ! 0 \<in> guesses mixed_calls_state) \<and>
   (snd (puzzle mixed_calls_state ! 1)
      \<longleftrightarrow> word mixed_calls_state ! 1 \<in> guesses mixed_calls_state)"
proof -
  have l: "0 < length (word mixed_calls_state)" "1 < length (word mixed_calls_state)"
    by (simp_all add: mixed_calls_state_def ustr_def)
  from revealed_iff_guessed [OF reachable_mixed_calls map_of_mixed_calls] l
    reachable_mixed_calls map_of_mixed_calls
  show ?thesis by blast
qed

text \<open>
  C9. There are exactly 10 drawings, and in every reachable registry the \<open>image_idx\<close> of
  every session lies in \<open>[0, 9]\<close>, so the lookup \<^verbatim>\<open>get_hangman_images()[image_idx]\<close> is in
  bounds: neither the status operation nor the guess operation raises, for any letter.
\<close>

theorem image_lookup_in_bounds:
  assumes "reachable L gs"
  shows "length get_hangman_images = 10 \<and>
         (\<forall>s g. map_of gs s = Some g \<longrightarrow>
            0 \<le> image_idx g \<and> image_idx g \<le> 9 \<and>
            py_index get_hangman_images (image_idx g)
              = Inr (get_hangman_images ! nat (image_idx g))) \<and>
         (\<forall>s. \<exists>r. get_game_status s gs = Inr r) \<and>
         (\<forall>letter s. \<exists>r. snd (make_guess L letter s gs) = Inr r)"
proof -
  have inv: "registry_inv L gs" using assms by (rule reachable_registry_inv)
  have "\<forall>s g. map_of gs s = Some g \<longrightarrow>
            0 \<le> image_idx g \<and> image_idx g \<le> 9 \<and>
            py_index get_hangman_images (image_idx g)
              = Inr (get_hangman_images ! nat (image_idx g))"
    using inv by (auto simp: registry_inv_def game_inv_def py_index_images)
  then show ?thesis
    using get_game_status_returns [OF inv] make_guess_returns [OF inv]
    by (simp add: length_images)
qed

theorem image_lookup_in_bounds_witness:
  "reachable ascii_lib eight_misses \<and>
   map_of eight_misses (ustr ''s'') = Some eight_misses_state \<and>
   image_idx eight_misses_state = 8 \<and>
   py_index get_hangman_images (image_idx eight_misses_state)
     = Inr (get_hangman_images ! nat (image_idx eight_misses_state)) \<and>
   (\<exists>r. get_game_status (ustr ''s'') eight_misses = Inr r) \<and>
   (\<exists>r. snd (make_guess ascii_lib (ustr ''k'') (ustr ''s'') eight_misses) = Inr r)"
proof -
  have i: "image_idx eight_misses_state = 8" by (simp add: eight_misses_state_def)
  from image_lookup_in_bounds [OF reachable_eight_misses] i
    reachable_eight_misses map_of_eight_misses
  show ?thesis by blast
qed

lemma lost_iff_nine:
  assumes "game_inv L g" "is_active g" "c \<notin> guesses g"
  shows "(is_game_over (record_guess c g) \<and> \<not> is_game_won (record_guess c g))
           \<longleftrightarrow> image_idx (record_guess c g) = 9"
proof -
  from not_over_bounds [OF assms(1,2)]
  have b: "image_idx g < 9" "remaining_letters g \<noteq> {}" by simp_all
  show ?thesis
  proof (cases "c \<in> remaining_letters g")
    case True
    with b show ?thesis
      by (simp add: is_game_over_def is_game_lost_def record_guess_simps length_images)
  next
    case False
    with b show ?thesis
      by (auto simp: is_game_over_def is_game_lost_def is_game_won_def record_guess_simps
          length_images)
  qed
qed

lemma error_response_status:
  "map_of (error_response m) ''status'' = Some (PStr (ustr ''error''))"
  by (simp add: error_response_def)

lemma error_is_not_success: "ustr ''error'' \<noteq> ustr ''success''"
  by (simp add: ustr_def)

text \<open>
  C4. In every reachable registry the \<open>image_idx\<close> of a session lies in \<open>[0, 9]\<close>; the game
  counts as lost exactly when it is 9, and is then no longer active. A guess that is
  accepted declares the loss (\<open>game_over\<close> true, \<open>won\<close> false) exactly when it brings
  \<open>image_idx\<close> to 9, and then leaves the session inactive.
\<close>

theorem miss_count_bounded_loss_at_nine:
  assumes "reachable L gs" "map_of gs s = Some g"
  shows "0 \<le> image_idx g \<and> image_idx g \<le> 9 \<and>
         (is_game_lost g \<longleftrightarrow> image_idx g = 9) \<and>
         (image_idx g = 9 \<longrightarrow> \<not> is_active g) \<and>
         (\<forall>letter r. snd (make_guess L letter s gs) = Inr r \<and>
                      map_of r ''status'' = Some (PStr (ustr ''success'')) \<longrightarrow>
            (\<exists>g'. map_of (fst (make_guess L letter s gs)) s = Some g' \<and>
                  ((map_of r ''game_over'' = Some (PBool True) \<and>
                    map_of r ''won'' = Some (PBool False)) \<longleftrightarrow> image_idx g' = 9) \<and>
                  (image_idx g' = 9 \<longrightarrow> \<not> is_active g')))"
proof -
  have inv: "game_inv L g" using assms by (rule reachable_game_inv)
  then have bounds: "0 \<le> image_idx g \<and> image_idx g \<le> 9" by (simp add: game_inv_def)
  then have lost: "is_game_lost g \<longleftrightarrow> image_idx g = 9"
    by (auto simp: is_game_lost_def length_images)
  from inv have act: "image_idx g = 9 \<longrightarrow> \<not> is_active g"
    using lost by (auto simp: game_inv_def is_game_over_def)
  have step: "\<exists>g'. map_of (fst (make_guess L letter s gs)) s = Some g' \<and>
                  ((map_of r ''game_over'' = Some (PBool True) \<and>
                    map_of r ''won'' = Some (PBool False)) \<longleftrightarrow> image_idx g' = 9) \<and>
                  (image_idx g' = 9 \<longrightarrow> \<not> is_active g')"
    if r: "snd (make_guess L letter s gs) = Inr r"
      and ok: "map_of r ''status'' = Some (PStr (ustr ''success''))" for letter r
    using make_guess_cases [of L letter s gs]
  proof
    assume "\<exists>m. make_guess L letter s gs = (gs, Inr (error_response m))"
    with r ok show ?thesis by (auto simp: error_response_status error_is_not_success)
  next
    assume "\<exists>g c. map_of gs s = Some g \<and> is_active g \<and> \<not> is_game_over g \<and>
           str_strip L (str_upper L letter) = [c] \<and> str_isalpha L [c] \<and> c \<notin> guesses g"
    with assms(2) obtain c where h: "map_of gs s = Some g" "is_active g" "\<not> is_game_over g"
      "str_strip L (str_upper L letter) = [c]" "str_isalpha L [c]" "c \<notin> guesses g" by auto
    let ?rg = "record_guess c g"
    let ?g' = "fst (apply_guess [c] g)"
    have g': "?g' = (if is_game_over ?rg then ?rg\<lparr>is_active := False\<rparr> else ?rg)"
      by (rule fst_apply_guess [OF inv h(2)])
    have m: "map_of (fst (make_guess L letter s gs)) s = Some ?g'"
      by (simp add: make_guess_accept [OF h] update_conv')
    from apply_guess_response [OF py_index_record_guess [OF inv h(2)], of c] r
    have f: "map_of r ''game_over'' = Some (PBool (is_game_over ?rg))"
      "map_of r ''won'' = (if is_game_over ?rg then Some (PBool (is_game_won ?rg)) else None)"
      by (auto simp: make_guess_accept [OF h])
    have idx: "image_idx ?g' = image_idx ?rg" by (simp add: g')
    have d: "(map_of r ''game_over'' = Some (PBool True) \<and>
              map_of r ''won'' = Some (PBool False)) \<longleftrightarrow> image_idx ?g' = 9"
      using lost_iff_nine [OF inv h(2) h(6)] by (auto simp: f idx)
    have "game_inv L ?g'" using inv h(2,5,6) by (rule game_inv_apply_guess)
    then have "image_idx ?g' = 9 \<longrightarrow> \<not> is_active ?g'"
      by (auto simp: game_inv_def is_game_over_def is_game_lost_def length_images)
    with m d show ?thesis by blast
  qed
  from bounds lost act step show ?thesis by blast
qed

theorem miss_count_bounded_loss_at_nine_witness:
  "reachable ascii_lib eight_misses \<and>
   map_of eight_misses (ustr ''s'') = Some eight_misses_state \<and>
   (\<exists>r. snd (make_guess ascii_lib (ustr ''k'') (ustr ''s'') eight_misses) = Inr r \<and>
        map_of r ''status'' = Some (PStr (ustr ''success'')) \<and>
        map_of r ''game_over'' = Some (PBool True) \<and>
        map_of r ''won'' = Some (PBool False)) \<and>
   (\<exists>g'. map_of (fst (make_guess ascii_lib (ustr ''k'') (ustr ''s'') eight_misses)) (ustr ''s'')
            = Some g' \<and>
         image_idx g' = 9 \<and> \<not> is_active g')"
proof -
  note t = miss_count_bounded_loss_at_nine [OF reachable_eight_misses map_of_eight_misses]
  have r: "\<exists>r. snd (make_guess ascii_lib (ustr ''k'') (ustr ''s'') eight_misses) = Inr r \<and>
        map_of r ''status'' = Some (PStr (ustr ''success'')) \<and>
        map_of r ''game_over'' = Some (PBool True) \<and>
        map_of r ''won'' = Some (PBool False)"
    unfolding make_guess_def map_of_eight_misses
    by (simp add: eight_misses_state_def eval_defs insert_Diff_if)
  with t have "\<exists>g'. map_of (fst (make_guess ascii_lib (ustr ''k'') (ustr ''s'') eight_misses))
                      (ustr ''s'') = Some g' \<and>
         image_idx g' = 9 \<and> \<not> is_active g'"
    by blast
  with r reachable_eight_misses map_of_eight_misses show ?thesis by blast
qed

lemma hit_flips_position:
  assumes "game_inv L g" "c \<notin> guesses g" "c \<in> remaining_letters g"
  shows "\<exists>i < length (puzzle g). \<not> snd (puzzle g ! i) \<and> snd (puzzle (record_guess c g) ! i)"
proof -
  from assms(1) have w: "map fst (puzzle g) = word g"
    and r: "remaining_letters g = set (word g) - guesses g"
    by (simp_all add: game_inv_def)
  from w have len: "length (puzzle g) = length (word g)" by (metis length_map)
  from assms(3) r have "c \<in> set (word g)" by simp
  then obtain i where i: "i < length (word g)" "word g ! i = c"
    by (auto simp: in_set_conv_nth)
  from puzzle_nth [OF assms(1) i(1)] i(2) assms(2)
  have old: "fst (puzzle g ! i) = c" "\<not> snd (puzzle g ! i)" by simp_all
  from i(1) len have il: "i < length (puzzle g)" by simp
  with old assms(3) have "snd (puzzle (record_guess c g) ! i)"
    by (simp add: record_guess_simps case_prod_beta)
  with il old show ?thesis by blast
qed

text \<open>
  C1. In a reachable registry, a guess on an active game whose normalised letter is one
  alphabetic character not guessed before is accepted, and exactly one of two changes
  occurs: \<open>image_idx\<close> grows by 1, or at least one puzzle position turns from not guessed to
  guessed; never both, never neither. No position turns back.
\<close>

theorem guess_changes_exactly_one:
  assumes "reachable L gs" "map_of gs s = Some g" "is_active g"
    and "str_strip L (str_upper L letter) = [c]" "str_isalpha L [c]" "c \<notin> guesses g"
  shows "\<exists>g' r. make_guess L letter s gs = (AList.update s g' gs, Inr r) \<and>
           map_of r ''status'' = Some (PStr (ustr ''success'')) \<and>
           length (puzzle g') = length (puzzle g) \<and>
           ((image_idx g' = image_idx g + 1)
              \<noteq> (\<exists>i < length (puzzle g). \<not> snd (puzzle g ! i) \<and> snd (puzzle g' ! i))) \<and>
           (image_idx g' \<noteq> image_idx g + 1 \<longrightarrow> image_idx g' = image_idx g) \<and>
           (\<forall>i < length (puzzle g). snd (puzzle g ! i) \<longrightarrow> snd (puzzle g' ! i))"
proof -
  have inv: "game_inv L g" using assms(1,2) by (rule reachable_game_inv)
  with assms(3) have no: "\<not> is_game_over g" by (simp add: game_inv_def)
  let ?rg = "record_guess c g"
  let ?g' = "fst (apply_guess [c] g)"
  have g': "?g' = (if is_game_over ?rg then ?rg\<lparr>is_active := False\<rparr> else ?rg)"
    by (rule fst_apply_guess [OF inv assms(3)])
  then have p: "puzzle ?g' = puzzle ?rg" and i: "image_idx ?g' = image_idx ?rg"
    by simp_all
  from apply_guess_response [OF py_index_record_guess [OF inv assms(3)], of c]
  obtain r where r: "snd (apply_guess [c] g) = Inr r"
    "map_of r ''status'' = Some (PStr (ustr ''success''))" by blast
  have mg: "make_guess L letter s gs = (AList.update s ?g' gs, Inr r)"
    by (simp add: make_guess_accept [OF assms(2,3) no assms(4,5,6)] r(1))
  have len: "length (puzzle ?g') = length (puzzle g)"
    by (simp add: p record_guess_simps)
  have mono: "\<forall>i < length (puzzle g). snd (puzzle g ! i) \<longrightarrow> snd (puzzle ?g' ! i)"
    by (simp add: p record_guess_simps case_prod_beta)
  have one: "(image_idx ?g' = image_idx g + 1)
       \<noteq> (\<exists>i < length (puzzle g). \<not> snd (puzzle g ! i) \<and> snd (puzzle ?g' ! i))"
  proof (cases "c \<in> remaining_letters g")
    case True
    from hit_flips_position [OF inv assms(6) True] True show ?thesis
      by (simp add: p i record_guess_simps)
  next
    case False
    then show ?thesis by (simp add: p i record_guess_simps)
  qed
  have two: "image_idx ?g' \<noteq> image_idx g + 1 \<longrightarrow> image_idx ?g' = image_idx g"
    by (simp add: i record_guess_simps)
  from mg r(2) len one two mono show ?thesis by blast
qed

theorem guess_changes_exactly_one_witness:
  "reachable ascii_lib one_hit \<and> map_of one_hit (ustr ''s'') = Some one_hit_state \<and>
   is_active one_hit_state \<and>
   str_strip ascii_lib (str_upper ascii_lib (ustr '' c '')) = [of_char (CHR ''C'')] \<and>
   str_isalpha ascii_lib [of_char (CHR ''C'')] \<and>
   of_char (CHR ''C'') \<notin> guesses one_hit_state \<and>
   (\<exists>g' r. make_guess ascii_lib (ustr '' c '') (ustr ''s'') one_hit
              = (AList.update (ustr ''s'') g' one_hit, Inr r) \<and>
      map_of r ''status'' = Some (PStr (ustr ''success'')) \<and>
      ((image_idx g' = image_idx one_hit_state + 1)
         \<noteq> (\<exists>i < length (puzzle one_hit_state).
               \<not> snd (puzzle one_hit_state ! i) \<and> snd (puzzle g' ! i))))"
proof -
  have a: "is_active one_hit_state" by (simp add: one_hit_state_def)
  have n: "str_strip ascii_lib (str_upper ascii_lib (ustr '' c '')) = [of_char (CHR ''C'')]"
    by (simp add: eval_defs)
  have l: "str_isalpha ascii_lib [of_char (CHR ''C'')]" by (simp add: eval_defs)
  have f: "of_char (CHR ''C'') \<notin> guesses one_hit_state"
    by (simp add: one_hit_state_def ustr_def)
  from guess_changes_exactly_one [OF reachable_one_hit map_of_one_hit a n l f]
  have "\<exists>g' r. make_guess ascii_lib (ustr '' c '') (ustr ''s'') one_hit
              = (AList.update (ustr ''s'') g' one_hit, Inr r) \<and>
      map_of r ''status'' = Some (PStr (ustr ''success'')) \<and>
      ((image_idx g' = image_idx one_hit_state + 1)
         \<noteq> (\<exists>i < length (puzzle one_hit_state).
               \<not> snd (puzzle one_hit_state ! i) \<and> snd (puzzle g' ! i)))"
    by blast
  with reachable_one_hit map_of_one_hit a n l f show ?thesis by blast
qed



lemma start_registers_session:
  "\<exists>g. map_of (fst (start_hangman_game secret p s gs)) s = Some g"
  by (cases secret) (simp_all add: start_hangman_game_def Let_def update_conv')

text \<open>
  C7. For every session id, registry and outcome of the word selection: starting a game
  and then ending it succeeds and removes the id from the registry, and a status call for
  the id then reports \<open>no_game\<close>.
\<close>

theorem start_then_end_removes_session:
  "map_of (fst (end_game s (fst (start_hangman_game secret p s gs)))) s = None \<and>
   map_of (snd (end_game s (fst (start_hangman_game secret p s gs)))) ''status''
     = Some (PStr (ustr ''success'')) \<and>
   get_game_status s (fst (end_game s (fst (start_hangman_game secret p s gs))))
     = Inr [(''status'', PStr (ustr ''no_game'')),
            (''message'', PStr (ustr ''No game session found. Start a new game first.''))]"
proof -
  let ?gs1 = "fst (start_hangman_game secret p s gs)"
  obtain g where g: "map_of ?gs1 s = Some g" using start_registers_session by blast
  then have e: "end_game s ?gs1 =
      (AList.delete s ?gs1,
       [(''status'', PStr (ustr ''success'')),
        (''message'', PStr (ustr ''Game ended for '' @ player_name g
           @ ustr ''. The word was '' @ quoted (word g) @ ustr ''. Thanks for playing!''))])"
    by (simp add: end_game_def)
  have n: "map_of (AList.delete s ?gs1) s = None" by (simp add: delete_conv')
  then have "get_game_status s (AList.delete s ?gs1)
     = Inr [(''status'', PStr (ustr ''no_game'')),
            (''message'', PStr (ustr ''No game session found. Start a new game first.''))]"
    by (simp add: get_game_status_def)
  with n show ?thesis by (simp add: e)
qed

lemma reset_state:
  "reset_game g\<lparr>player_name := p\<rparr> =
     \<lparr>player_name = p, word = [], current_guess = [], guesses = {},
      remaining_letters = {}, puzzle = [], image_idx = 0, is_active = False\<rparr>"
  by (cases g) (simp add: reset_game_def)

lemma status_of_reset_state:
  assumes "map_of gs s = Some \<lparr>player_name = p, word = [], current_guess = [], guesses = {},
             remaining_letters = {}, puzzle = [], image_idx = 0, is_active = False\<rparr>"
  shows "\<exists>r. get_game_status s gs = Inr r \<and>
        map_of r ''status'' = Some (PStr (ustr ''finished'')) \<and>
        map_of r ''game_over'' = Some (PBool True) \<and>
        map_of r ''won'' = Some (PBool True)"
  by (simp add: get_game_status_def assms is_game_over_def is_game_won_def py_index_def
      length_images)

text \<open>
  C10. When the word selection raises, the start operation returns an error result, yet a
  reset game state (empty word, no guesses, not active) stays registered under the id; a
  status call for the id then reports \<open>finished\<close> with \<open>won\<close> true.
\<close>

theorem failed_start_leaves_finished_session:
  "snd (start_hangman_game (Inl e) p s gs)
     = [(''status'', PStr (ustr ''error'')),
        (''message'', PStr (ustr ''Failed to start game: '' @ str_exn e))] \<and>
   map_of (fst (start_hangman_game (Inl e) p s gs)) s
     = Some \<lparr>player_name = p, word = [], current_guess = [], guesses = {},
             remaining_letters = {}, puzzle = [], image_idx = 0, is_active = False\<rparr> \<and>
   (\<exists>r. get_game_status s (fst (start_hangman_game (Inl e) p s gs)) = Inr r \<and>
        map_of r ''status'' = Some (PStr (ustr ''finished'')) \<and>
        map_of r ''game_over'' = Some (PBool True) \<and>
        map_of r ''won'' = Some (PBool True))"
proof -
  let ?g = "\<lparr>player_name = p, word = [], current_guess = [], guesses = {},
             remaining_letters = {}, puzzle = [], image_idx = 0, is_active = False\<rparr>"
  have st: "start_hangman_game (Inl e) p s gs =
      (AList.update s ?g gs,
       [(''status'', PStr (ustr ''error'')),
        (''message'', PStr (ustr ''Failed to start game: '' @ str_exn e))])"
    by (simp add: start_hangman_game_def Let_def reset_state error_response_def)
  have m: "map_of (AList.update s ?g gs) s = Some ?g" by (simp add: update_conv')
  from status_of_reset_state [OF m] m show ?thesis by (simp add: st)
qed

lemma join_chars_length:
  "xs \<noteq> [] \<Longrightarrow> length (str_join [sep] (map (\<lambda>x. [x]) xs)) = 2 * length xs - 1"
  by (induction xs rule: induct_list012) simp_all

lemma join_chars_even:
  "i < length xs \<Longrightarrow> str_join [sep] (map (\<lambda>x. [x]) xs) ! (2 * i) = xs ! i"
proof (induction xs arbitrary: i rule: induct_list012)
  case (3 x y zs)
  then show ?case by (cases i) simp_all
qed simp_all

lemma join_chars_odd:
  "Suc i < length xs \<Longrightarrow> str_join [sep] (map (\<lambda>x. [x]) xs) ! (2 * i + 1) = sep"
proof (induction xs arbitrary: i rule: induct_list012)
  case (3 x y zs)
  then show ?case by (cases i) simp_all
qed simp_all

lemma join_chars_set:
  "set (str_join [sep] (map (\<lambda>x. [x]) xs)) - {sep} = set xs - {sep}"
  by (induction xs rule: induct_list012) auto

lemma ustr_single: "ustr [c] = [of_char c]"
  by (simp add: ustr_def)

lemma get_display_word_shown:
  "get_display_word g
     = str_join [of_char (CHR '' '')] (map (\<lambda>x. [x]) (map shown (puzzle g)))"
proof -
  have "(\<lambda>(char, val). if val then [char] else ustr ''_'') = (\<lambda>p. [shown p])"
    by (auto simp: shown_def fun_eq_iff ustr_single)
  then show ?thesis by (simp add: get_display_word_def o_def ustr_single)
qed

lemma revealed_letters:
  assumes "game_inv L g"
  shows "{word g ! i |i. i < length (word g) \<and> snd (puzzle g ! i)} = guesses g \<inter> set (word g)"
proof (intro equalityI subsetI)
  fix x assume "x \<in> {word g ! i |i. i < length (word g) \<and> snd (puzzle g ! i)}"
  then obtain i where i: "i < length (word g)" "snd (puzzle g ! i)" "x = word g ! i" by blast
  with puzzle_nth [OF assms i(1)] show "x \<in> guesses g \<inter> set (word g)" by simp
next
  fix x assume x: "x \<in> guesses g \<inter> set (word g)"
  then obtain i where i: "i < length (word g)" "word g ! i = x"
    by (auto simp: in_set_conv_nth)
  with puzzle_nth [OF assms i(1)] x have "snd (puzzle g ! i)" by simp
  with i show "x \<in> {word g ! i |i. i < length (word g) \<and> snd (puzzle g ! i)}" by blast
qed

lemma shown_letters:
  assumes "game_inv L g"
    and "\<not> str_isalpha L (ustr ''_'')" "\<not> str_isalpha L (ustr '' '')"
  shows "set (map shown (puzzle g)) - {of_char (CHR ''_''), of_char (CHR '' '')}
           = guesses g \<inter> set (word g)"
proof -
  from assms(1) have w: "map fst (puzzle g) = word g"
    and p: "\<forall>(c, v) \<in> set (puzzle g). v \<longleftrightarrow> c \<in> guesses g"
    and a: "\<forall>c \<in> guesses g. str_isalpha L [c]"
    by (simp_all add: game_inv_def)
  from w have sw: "set (word g) = fst ` set (puzzle g)" by (metis set_map)
  from a assms(2,3) have ng: "of_char (CHR ''_'') \<notin> guesses g" "of_char (CHR '' '') \<notin> guesses g"
    by (auto simp: ustr_single)
  show ?thesis
  proof (intro equalityI subsetI)
    fix x assume "x \<in> set (map shown (puzzle g)) - {of_char (CHR ''_''), of_char (CHR '' '')}"
    then obtain q where q: "q \<in> set (puzzle g)" "x = shown q" "x \<noteq> of_char (CHR ''_'')"
      by auto
    then have "snd q" "x = fst q" by (auto simp: shown_def split: if_splits)
    with p q(1) sw show "x \<in> guesses g \<inter> set (word g)" by (auto simp: case_prod_beta)
  next
    fix x assume x: "x \<in> guesses g \<inter> set (word g)"
    with sw obtain q where q: "q \<in> set (puzzle g)" "fst q = x" by auto
    with p x have "snd q" by (auto simp: case_prod_beta)
    with q have "shown q = x" by (simp add: shown_def)
    with q(1) have "x \<in> set (map shown (puzzle g))" by force
    moreover from x ng have "x \<noteq> of_char (CHR ''_'')" "x \<noteq> of_char (CHR '' '')" by auto
    ultimately show "x \<in> set (map shown (puzzle g)) - {of_char (CHR ''_''), of_char (CHR '' '')}"
      by simp
  qed
qed

text \<open>
  C5. In a reachable registry, for a session whose secret word has length \<open>n \<ge> 1\<close>, the
  display string has length \<open>2 * n - 1\<close>: position \<open>2 * i\<close> shows the word's character at \<open>i\<close>
  if that position is revealed and \<open>_\<close> otherwise, and the positions between hold one space
  each. The letters at its revealed positions are exactly the guessed letters that occur
  in the word; so are its characters other than \<open>_\<close> and the space, whenever the library
  counts neither of the two as alphabetic (as Python does).
\<close>

theorem display_word_shape:
  assumes "reachable L gs" "map_of gs s = Some g" "word g \<noteq> []"
  shows "length (get_display_word g) = 2 * length (word g) - 1 \<and>
         (\<forall>i < length (word g).
            get_display_word g ! (2 * i)
              = (if snd (puzzle g ! i) then word g ! i else of_char (CHR ''_''))) \<and>
         (\<forall>i. Suc i < length (word g) \<longrightarrow>
            get_display_word g ! (2 * i + 1) = of_char (CHR '' '')) \<and>
         {get_display_word g ! (2 * i) |i. i < length (word g) \<and> snd (puzzle g ! i)}
           = guesses g \<inter> set (word g) \<and>
         (\<not> str_isalpha L (ustr ''_'') \<and> \<not> str_isalpha L (ustr '' '') \<longrightarrow>
            set (get_display_word g) - {of_char (CHR ''_''), of_char (CHR '' '')}
              = guesses g \<inter> set (word g))"
proof -
  have inv: "game_inv L g" using assms(1,2) by (rule reachable_game_inv)
  then have "map fst (puzzle g) = word g" by (simp add: game_inv_def)
  then have len: "length (puzzle g) = length (word g)" by (metis length_map)
  let ?xs = "map shown (puzzle g)"
  let ?u = "of_char (CHR ''_'') :: pychar"
  let ?b = "of_char (CHR '' '') :: pychar"
  have lx: "length ?xs = length (word g)" by (simp add: len)
  with assms(3) have ne: "?xs \<noteq> []" by auto
  have 1: "length (get_display_word g) = 2 * length (word g) - 1"
    using join_chars_length [OF ne] by (simp add: get_display_word_shown len)
  have 2: "get_display_word g ! (2 * i) = (if snd (puzzle g ! i) then word g ! i else ?u)"
    if "i < length (word g)" for i
  proof -
    from that lx have "i < length ?xs" by simp
    then have "get_display_word g ! (2 * i) = ?xs ! i"
      unfolding get_display_word_shown by (rule join_chars_even)
    also have "\<dots> = shown (puzzle g ! i)" using that len by simp
    finally show ?thesis using puzzle_nth [OF inv that] by (simp add: shown_def)
  qed
  have 3: "get_display_word g ! (2 * i + 1) = ?b" if "Suc i < length (word g)" for i
  proof -
    from that lx have "Suc i < length ?xs" by simp
    then show ?thesis unfolding get_display_word_shown by (rule join_chars_odd)
  qed
  have e: "get_display_word g ! (2 * i) = word g ! i"
    if "i < length (word g)" "snd (puzzle g ! i)" for i
    using 2 [OF that(1)] that(2) by simp
  have "{get_display_word g ! (2 * i) |i. i < length (word g) \<and> snd (puzzle g ! i)}
          = {word g ! i |i. i < length (word g) \<and> snd (puzzle g ! i)}"
  proof (intro equalityI subsetI)
    fix x assume "x \<in> {get_display_word g ! (2 * i) |i. i < length (word g) \<and> snd (puzzle g ! i)}"
    then obtain i where "i < length (word g)" "snd (puzzle g ! i)"
      "x = get_display_word g ! (2 * i)" by blast
    with e show "x \<in> {word g ! i |i. i < length (word g) \<and> snd (puzzle g ! i)}" by auto
  next
    fix x assume "x \<in> {word g ! i |i. i < length (word g) \<and> snd (puzzle g ! i)}"
    then obtain i where i: "i < length (word g)" "snd (puzzle g ! i)" "x = word g ! i" by blast
    with e have "x = get_display_word g ! (2 * i)" by simp
    with i show "x \<in> {get_display_word g ! (2 * i) |i. i < length (word g) \<and> snd (puzzle g ! i)}"
      by blast
  qed
  then have 4: "{get_display_word g ! (2 * i) |i. i < length (word g) \<and> snd (puzzle g ! i)}
                  = guesses g \<inter> set (word g)"
    by (simp only: revealed_letters [OF inv])
  have 5: "set (get_display_word g) - {?u, ?b} = guesses g \<inter> set (word g)"
    if na: "\<not> str_isalpha L (ustr ''_'')" "\<not> str_isalpha L (ustr '' '')"
  proof -
    have "set (get_display_word g) - {?u, ?b} = (set (get_display_word g) - {?b}) - {?u, ?b}"
      by auto
    also have "\<dots> = (set ?xs - {?b}) - {?u, ?b}"
      unfolding get_display_word_shown join_chars_set ..
    also have "\<dots> = set ?xs - {?u, ?b}" by auto
    also have "\<dots> = guesses g \<inter> set (word g)" by (rule shown_letters [OF inv na])
    finally show ?thesis .
  qed
  from 1 2 3 4 5 show ?thesis by blast
qed

theorem display_word_shape_witness:
  "reachable ascii_lib one_hit \<and> map_of one_hit (ustr ''s'') = Some one_hit_state \<and>
   word one_hit_state \<noteq> [] \<and>
   \<not> str_isalpha ascii_lib (ustr ''_'') \<and> \<not> str_isalpha ascii_lib (ustr '' '') \<and>
   get_display_word one_hit_state = ustr ''_ A _'' \<and>
   length (get_display_word one_hit_state) = 2 * length (word one_hit_state) - 1 \<and>
   set (get_display_word one_hit_state) - {of_char (CHR ''_''), of_char (CHR '' '')}
     = guesses one_hit_state \<inter> set (word one_hit_state)"
proof -
  have w: "word one_hit_state \<noteq> []" by (simp add: one_hit_state_def ustr_def)
  have n: "\<not> str_isalpha ascii_lib (ustr ''_'')" "\<not> str_isalpha ascii_lib (ustr '' '')"
    by (simp_all add: eval_defs)
  have d: "get_display_word one_hit_state = ustr ''_ A _''"
    by (simp add: one_hit_state_def get_display_word_def ustr_def)
  from display_word_shape [OF reachable_one_hit map_of_one_hit w] d w n
    reachable_one_hit map_of_one_hit
  show ?thesis by blast
qed

text \<open>
  C2. What the code does once a game is over (won or lost) in a reachable registry: the
  session is inactive, and every further guess returns the error
  \<^verbatim>\<open>No active game. Start a new game first.\<close>, with the registry unchanged; the error
  \<^verbatim>\<open>Game is already over. Start a new game.\<close> is never the result, because the check of
  \<open>is_active\<close> returns first.
\<close>

theorem guess_on_finished_game_reports_no_active_game:
  assumes "reachable L gs" "map_of gs s = Some g" "is_game_over g"
  shows "\<not> is_active g \<and>
         make_guess L letter s gs =
           (gs, Inr [(''status'', PStr (ustr ''error'')),
                     (''message'', PStr (ustr ''No active game. Start a new game first.''))]) \<and>
         snd (make_guess L letter s gs) \<noteq>
           Inr [(''status'', PStr (ustr ''error'')),
                (''message'', PStr (ustr ''Game is already over. Start a new game.''))]"
proof -
  have "game_inv L g" using assms(1,2) by (rule reachable_game_inv)
  with assms(3) have "\<not> is_active g" by (simp add: game_inv_def)
  with assms(2) show ?thesis by (simp add: make_guess_def error_response_def ustr_def)
qed

theorem guess_on_finished_game_reports_no_active_game_witness:
  "reachable ascii_lib won_game \<and> map_of won_game (ustr ''s'') = Some won_state \<and>
   is_game_over won_state \<and> is_game_won won_state \<and>
   puzzle won_state = zip (ustr ''CAT'') [True, True, True] \<and>
   make_guess ascii_lib (ustr ''Z'') (ustr ''s'') won_game =
     (won_game, Inr [(''status'', PStr (ustr ''error'')),
                     (''message'', PStr (ustr ''No active game. Start a new game first.''))])"
proof -
  have w: "is_game_won won_state" by (simp add: won_state_def is_game_won_def)
  then have o: "is_game_over won_state" by (simp add: is_game_over_def)
  have p: "puzzle won_state = zip (ustr ''CAT'') [True, True, True]"
    by (simp add: won_state_def)
  from guess_on_finished_game_reports_no_active_game [OF reachable_won_game map_of_won_game o]
    reachable_won_game map_of_won_game o w p
  show ?thesis by blast
qed

section \<open>The built-in word source\<close>


lemma animal_words_ascii: "\<forall>w \<in> set animal_words. is_ascii (ustr w)"
  by (simp add: animal_words_def is_ascii_def ustr_def)

lemma animals_ascii: "is_ascii (ustr ''animals'')"
  by (simp add: is_ascii_def ustr_def)

lemma get_word_list_agrees:
  assumes "agrees_on_ascii L"
  shows "get_word_list L (ustr ''animals'') = get_word_list ascii_lib (ustr ''animals'')"
proof -
  from assms animals_ascii
  have l: "str_lower L (ustr ''animals'') = str_lower ascii_lib (ustr ''animals'')"
    by (simp add: agrees_on_ascii_def)
  from assms animal_words_ascii
  have "\<forall>w \<in> set animal_words. str_upper L (ustr w) = str_upper ascii_lib (ustr w)"
    by (simp add: agrees_on_ascii_def)
  then have u: "map (str_upper L) (map ustr animal_words)
                  = map (str_upper ascii_lib) (map ustr animal_words)"
    by simp
  show ?thesis unfolding get_word_list_def Let_def l lower_animals using u by simp
qed

lemma get_secret_word_agrees:
  "agrees_on_ascii L \<Longrightarrow> get_secret_word L r = get_secret_word ascii_lib r"
  by (simp add: get_secret_word_def get_word_list_agrees)







section \<open>The example runs under every library\<close>

text \<open>
  A run whose guesses are ASCII strings is the same under every library that agrees with
  Python's on ASCII strings, so the example runs are runs of the server.
\<close>

lemma is_ascii_upper: "is_ascii s \<Longrightarrow> is_ascii (str_upper ascii_lib s)"
  by (induction s) (auto simp: is_ascii_def ascii_lib_def ascii_upper_char_def)

lemma is_ascii_strip: "is_ascii s \<Longrightarrow> is_ascii (str_strip ascii_lib s)"
proof -
  assume a: "is_ascii s"
  have "set (str_strip ascii_lib s) \<subseteq> set s"
    by (auto simp: ascii_lib_def dest!: set_dropWhileD)
  with a show ?thesis by (auto simp: is_ascii_def list_all_iff)
qed

lemma normalise_agrees:
  assumes "agrees_on_ascii L" "is_ascii letter"
  shows "str_strip L (str_upper L letter) = str_strip ascii_lib (str_upper ascii_lib letter)"
    and "str_isalpha L (str_strip ascii_lib (str_upper ascii_lib letter))
           = str_isalpha ascii_lib (str_strip ascii_lib (str_upper ascii_lib letter))"
proof -
  from assms have u: "str_upper L letter = str_upper ascii_lib letter"
    by (simp add: agrees_on_ascii_def)
  have au: "is_ascii (str_upper ascii_lib letter)" using assms(2) by (rule is_ascii_upper)
  with assms(1) have s: "str_strip L (str_upper ascii_lib letter)
      = str_strip ascii_lib (str_upper ascii_lib letter)"
    by (simp add: agrees_on_ascii_def)
  show "str_strip L (str_upper L letter) = str_strip ascii_lib (str_upper ascii_lib letter)"
    by (simp only: u s)
  from au have "is_ascii (str_strip ascii_lib (str_upper ascii_lib letter))"
    by (rule is_ascii_strip)
  with assms(1) show "str_isalpha L (str_strip ascii_lib (str_upper ascii_lib letter))
           = str_isalpha ascii_lib (str_strip ascii_lib (str_upper ascii_lib letter))"
    by (simp add: agrees_on_ascii_def)
qed

lemma make_guess_agrees:
  assumes "agrees_on_ascii L" "is_ascii letter"
  shows "make_guess L letter s gs = make_guess ascii_lib letter s gs"
  unfolding make_guess_def Let_def normalise_agrees [OF assms] ..

lemma step_agrees:
  assumes "agrees_on_ascii L" "ascii_call c"
  shows "step L c gs = step ascii_lib c gs"
proof (cases c)
  case (Start r p s)
  then show ?thesis by (simp add: get_secret_word_agrees [OF assms(1)])
next
  case (Guess letter s)
  with assms show ?thesis by (simp add: make_guess_agrees)
qed simp_all

lemma run_agrees:
  "agrees_on_ascii L \<Longrightarrow> list_all ascii_call cs \<Longrightarrow> run L cs gs = run ascii_lib cs gs"
  by (induction cs arbitrary: gs) (simp_all add: step_agrees)

lemma won_game_any_library:
  assumes "agrees_on_ascii L"
  shows "run L [Start 1 (ustr ''Alice'') (ustr ''s''), Guess (ustr ''C'') (ustr ''s''),
                Guess (ustr ''A'') (ustr ''s''), Guess (ustr ''T'') (ustr ''s'')] [] = won_game"
  unfolding won_game_def by (rule run_agrees [OF assms]) (simp add: is_ascii_def ustr_def)

section \<open>Letters beyond ASCII\<close>

text \<open>
  The guess of the letter U+00E9 (e with acute accent), which a library like Python's
  turns into U+00C9 and
  counts as alphabetic, is accepted on a game whose word does not hold it: it is stored
  among the guesses and counted as a miss.
\<close>

lemma non_ascii_letter_counts_as_miss:
  assumes "map_of gs s = Some g" "is_active g" "\<not> is_game_over g"
    and "str_strip L (str_upper L [233]) = [201]" "str_isalpha L [201]"
    and "201 \<notin> guesses g" "201 \<notin> remaining_letters g"
  shows "\<exists>g'. map_of (fst (make_guess L [233] s gs)) s = Some g' \<and>
              image_idx g' = image_idx g + 1 \<and> guesses g' = insert 201 (guesses g)"
proof -
  let ?g' = "fst (apply_guess [201] g)"
  have m: "map_of (fst (make_guess L [233] s gs)) s = Some ?g'"
    by (simp add: make_guess_accept [OF assms(1-6)] update_conv')
  have "image_idx ?g' = image_idx g + 1 \<and> guesses ?g' = insert 201 (guesses g)"
    using assms(7) by (simp add: fst_apply_guess_unfold record_guess_simps split: sum.splits)
  with m show ?thesis by blast
qed

end
